theory Spec2Isabelle
  imports Complex_Main
begin

section \<open>Data model of \<open>abel/tools/vmi.py\<close>\<close>

text \<open>
  The module works on numpy arrays of float64. A one-dimensional array is a list of
  reals, a two-dimensional array the list of its rows. The reals stand for the floats:
  comparisons, selection by mask, slicing and the shape of every result are the same,
  rounding, NaN and infinities are not represented.

  Python values that are only handed through to the resampler (\<open>origin\<close>, \<open>dr\<close>,
  \<open>dt\<close>, the \<open>Jacobian\<close> flag) are values of \<open>pyval\<close>.
\<close>

type_synonym array1 = "real list"
type_synonym array2 = "real list list"
type_synonym image = "real list list"

datatype pyval = PyNone | PyBool bool | PyInt int | PyFloat real | PyTuple "pyval list"

datatype error = IndexError | TypeError | ValueError | RuntimeError

text \<open>Truth value of a Python object, as \<open>if Jacobian:\<close> tests it.\<close>

fun truthy :: "pyval \<Rightarrow> bool" where
  "truthy PyNone = False"
| "truthy (PyBool b) = b"
| "truthy (PyInt i) = (i \<noteq> 0)"
| "truthy (PyFloat x) = (x \<noteq> 0)"
| "truthy (PyTuple vs) = (vs \<noteq> [])"

text \<open>
  What \<open>reproject_image_into_polar\<close> returns: the resampled image and the two
  coordinate grids, indexed (radial bin, angular bin).
\<close>

record polar_grid =
  polarIM :: array2
  R :: array2
  T :: array2

text \<open>
  \<open>abel.tools.polar.reproject_image_into_polar\<close> is not part of this module. It is a
  parameter of every function that calls it: it takes the image and the four arguments
  \<open>origin\<close>, \<open>Jacobian\<close>, \<open>dr\<close>, \<open>dt\<close>, each \<open>None\<close> when the call site does not
  supply it, and returns a grid or raises.
\<close>

type_synonym resampler =
  "image \<Rightarrow> pyval option \<Rightarrow> pyval option \<Rightarrow> pyval option \<Rightarrow> pyval option
     \<Rightarrow> error + polar_grid"

text \<open>
  The contract of the resampler on shapes: the three arrays are rectangular, of one
  shape \<open>nr \<times> nt\<close>.
\<close>

definition shape_ok :: "nat \<Rightarrow> nat \<Rightarrow> array2 \<Rightarrow> bool" where
  "shape_ok nr nt A \<longleftrightarrow> length A = nr \<and> list_all (\<lambda>row. length row = nt) A"

definition grid_ok :: "nat \<Rightarrow> nat \<Rightarrow> polar_grid \<Rightarrow> bool" where
  "grid_ok nr nt g \<longleftrightarrow>
     shape_ok nr nt (polarIM g) \<and> shape_ok nr nt (R g) \<and> shape_ok nr nt (T g)"

section \<open>The numpy operations the module uses\<close>

text \<open>\<open>A[0, :]\<close>: the first row; IndexError on an array with no row.\<close>

definition row0 :: "array2 \<Rightarrow> error + array1" where
  "row0 A = (case A of [] \<Rightarrow> Inl IndexError | row # _ \<Rightarrow> Inr row)"

text \<open>\<open>A[:, 0]\<close>: the first column; IndexError on an array with no column.\<close>

definition col0 :: "array2 \<Rightarrow> error + array1" where
  "col0 A = (if list_ex (\<lambda>row. row = []) A then Inl IndexError else Inr (map hd A))"

text \<open>\<open>T[0, 1] - T[0, 0]\<close>; IndexError when the first row has fewer than two entries.\<close>

definition first_step :: "array2 \<Rightarrow> error + real" where
  "first_step A =
     (case A of
        [] \<Rightarrow> Inl IndexError
      | row # _ \<Rightarrow> (if length row < 2 then Inl IndexError else Inr (row ! 1 - row ! 0)))"

text \<open>
  \<open>A * B\<close> on two-dimensional arrays. Arrays of one shape are multiplied element by
  element. Arrays of different shapes raise ValueError here; numpy would broadcast where
  one of them has an axis of length one, which the resampler's grids never have against
  each other.
\<close>

definition same_shape :: "array2 \<Rightarrow> array2 \<Rightarrow> bool" where
  "same_shape A B \<longleftrightarrow> map length A = map length B"

definition mul2 :: "array2 \<Rightarrow> array2 \<Rightarrow> error + array2" where
  "mul2 A B =
     (if same_shape A B then Inr (map2 (\<lambda>a b. map2 (\<lambda>x y. x * y) a b) A B)
      else Inl ValueError)"

text \<open>\<open>np.abs(np.sin(A))\<close>.\<close>

definition abs_sin :: "array2 \<Rightarrow> array2" where
  "abs_sin A = map (map (\<lambda>t. \<bar>sin t\<bar>)) A"

text \<open>
  \<open>np.trapz(y, dx=d)\<close> on one row: \<open>(d * (y[1:] + y[:-1]) / 2.0).sum()\<close>, and along
  axis 1 of a two-dimensional array.
\<close>

definition trapz :: "real \<Rightarrow> array1 \<Rightarrow> real" where
  "trapz d y = sum_list (map2 (\<lambda>a b. d * (a + b) / 2) (tl y) (butlast y))"

definition trapz_axis1 :: "real \<Rightarrow> array2 \<Rightarrow> array1" where
  "trapz_axis1 d A = map (trapz d) A"

section \<open>\<open>angular_integration\<close>\<close>

definition angular_integration ::
  "resampler \<Rightarrow> image \<Rightarrow> pyval \<Rightarrow> pyval \<Rightarrow> pyval \<Rightarrow> pyval \<Rightarrow> error + (array1 \<times> array1)"
where
  "angular_integration rp IM origin Jacobian dr dt =
     (case rp IM (Some origin) (Some Jacobian) (Some dr) (Some dt) of
        Inl e \<Rightarrow> Inl e
      | Inr g \<Rightarrow>
          (case first_step (T g) of
             Inl e \<Rightarrow> Inl e
           | Inr dt' \<Rightarrow>
               (case (if truthy Jacobian
                      then (case mul2 (polarIM g) (R g) of
                              Inl e \<Rightarrow> Inl e
                            | Inr W \<Rightarrow> mul2 W (abs_sin (T g)))
                      else Inr (polarIM g)) of
                  Inl e \<Rightarrow> Inl e
                | Inr P \<Rightarrow>
                    (let speeds = trapz_axis1 dt' P;
                         n = length speeds
                     in (case col0 (take n (R g)) of
                           Inl e \<Rightarrow> Inl e
                         | Inr r \<Rightarrow> Inr (r, speeds))))))"

section \<open>\<open>average_radial_intensity\<close>\<close>

text \<open>
  \<open>**kwargs\<close> is a dictionary from names to values, here an association list.
  The call \<open>angular_integration(IM, Jacobian=False, **kwargs)\<close> binds \<open>IM\<close> by
  position and \<open>Jacobian\<close> by keyword, then the entries of \<open>kwargs\<close>. Python raises
  TypeError when \<open>kwargs\<close> repeats the keyword written at the call site, names the
  parameter already bound by position, or has a name that is no parameter of
  \<open>angular_integration\<close>. Parameters left unbound take the defaults of the signature:
  \<open>origin=None\<close>, \<open>dr=1\<close>, \<open>dt=None\<close>.
\<close>

type_synonym kwargs = "(string \<times> pyval) list"

definition kw_get :: "kwargs \<Rightarrow> string \<Rightarrow> pyval \<Rightarrow> pyval" where
  "kw_get kw name dflt = (case map_of kw name of None \<Rightarrow> dflt | Some v \<Rightarrow> v)"

definition call_angular_integration_Jacobian_False ::
  "resampler \<Rightarrow> image \<Rightarrow> kwargs \<Rightarrow> error + (array1 \<times> array1)"
where
  "call_angular_integration_Jacobian_False rp IM kw =
     (if ''Jacobian'' \<in> set (map fst kw) then Inl TypeError
      else if ''IM'' \<in> set (map fst kw) then Inl TypeError
      else if list_ex (\<lambda>k. k \<notin> {''origin'', ''dr'', ''dt''}) (map fst kw) then Inl TypeError
      else angular_integration rp IM
             (kw_get kw ''origin'' PyNone) (PyBool False)
             (kw_get kw ''dr'' (PyInt 1)) (kw_get kw ''dt'' PyNone))"

definition average_radial_intensity ::
  "resampler \<Rightarrow> image \<Rightarrow> kwargs \<Rightarrow> error + (array1 \<times> array1)"
where
  "average_radial_intensity rp IM kw =
     (case call_angular_integration_Jacobian_False rp IM kw of
        Inl e \<Rightarrow> Inl e
      | Inr (r, intensity) \<Rightarrow> Inr (r, map (\<lambda>x. x / (2 * pi)) intensity))"

section \<open>\<open>radial_integration\<close>\<close>

text \<open>
  The argument \<open>radial_ranges\<close>: \<open>None\<close>, a Python int, or a list of
  \<open>(r_lo, r_hi)\<close> tuples.
\<close>

type_synonym band = "real \<times> real"

datatype radial_ranges = RNone | RStep int | RExplicit "band list"

text \<open>Python slices \<open>xs[:stop]\<close> and \<open>xs[start:]\<close>; a negative index counts from the end.\<close>

definition slice_to :: "'a list \<Rightarrow> int \<Rightarrow> 'a list" where
  "slice_to xs stop =
     (if stop < 0 then take (nat (int (length xs) + stop)) xs else take (nat stop) xs)"

definition slice_from :: "'a list \<Rightarrow> int \<Rightarrow> 'a list" where
  "slice_from xs start =
     (if start < 0 then drop (nat (int (length xs) + start)) xs else drop (nat start) xs)"

text \<open>
  Lines 147 to 150: \<open>None\<close> becomes the step 1, and an int step \<open>k\<close> becomes
  \<open>list(zip(r[:-k], r[k:]))\<close>. After line 148 the value is never \<open>None\<close>, so the
  last case below is not reached.
\<close>

definition resolve_ranges :: "array1 \<Rightarrow> radial_ranges \<Rightarrow> band list" where
  "resolve_ranges r radial_ranges =
     (case (case radial_ranges of RNone \<Rightarrow> RStep 1 | x \<Rightarrow> x) of
        RStep k \<Rightarrow> zip (slice_to r (- k)) (slice_from r k)
      | RExplicit bands \<Rightarrow> bands
      | RNone \<Rightarrow> [])"

text \<open>
  \<open>A[mask]\<close> with a boolean mask along the first axis: the entries where the mask is
  true; IndexError when the mask and the axis differ in length.
\<close>

definition bool_index :: "'a list \<Rightarrow> bool list \<Rightarrow> error + 'a list" where
  "bool_index xs sel =
     (if length sel \<noteq> length xs then Inl IndexError
      else Inr (map fst (filter snd (zip xs sel))))"

text \<open>
  \<open>np.sum(A, axis=0)\<close>: the sum of the rows, a row of zeros when there is none. The
  number of columns is that of the array the rows were selected from.
\<close>

definition ncols :: "array2 \<Rightarrow> nat" where
  "ncols A = (case A of [] \<Rightarrow> 0 | row # _ \<Rightarrow> length row)"

definition sum_axis0 :: "nat \<Rightarrow> array2 \<Rightarrow> array1" where
  "sum_axis0 n rows = foldl (\<lambda>acc row. map2 (\<lambda>x y. x + y) acc row) (replicate n 0) rows"

text \<open>\<open>np.logical_and(r >= rr[0], r <= rr[1])\<close>.\<close>

definition in_range_mask :: "array1 \<Rightarrow> band \<Rightarrow> bool list" where
  "in_range_mask r rr = map (\<lambda>x. fst rr \<le> x \<and> x \<le> snd rr) r"

text \<open>\<open>np.mean(rr)\<close> of a pair.\<close>

definition mean2 :: "band \<Rightarrow> real" where
  "mean2 rr = (fst rr + snd rr) / 2"

text \<open>The loop of lines 152 to 159, with the two lists it appends to.\<close>

fun band_loop ::
  "array2 \<Rightarrow> array1 \<Rightarrow> band list \<Rightarrow> array2 \<Rightarrow> array1 \<Rightarrow> error + (array2 \<times> array1)"
where
  "band_loop P r [] intensity_vs_theta_at_R radial_midpt =
     Inr (intensity_vs_theta_at_R, radial_midpt)"
| "band_loop P r (rr # rest) intensity_vs_theta_at_R radial_midpt =
     (case bool_index P (in_range_mask r rr) of
        Inl e \<Rightarrow> Inl e
      | Inr rows \<Rightarrow>
          band_loop P r rest
            (intensity_vs_theta_at_R @ [sum_axis0 (ncols P) rows])
            (radial_midpt @ [mean2 rr]))"

definition radial_integration ::
  "resampler \<Rightarrow> image \<Rightarrow> radial_ranges \<Rightarrow> error + (array2 \<times> array1 \<times> array1)"
where
  "radial_integration rp IM radial_ranges =
     (case rp IM None None None None of
        Inl e \<Rightarrow> Inl e
      | Inr g \<Rightarrow>
          (case row0 (T g) of
             Inl e \<Rightarrow> Inl e
           | Inr theta \<Rightarrow>
               (case col0 (R g) of
                  Inl e \<Rightarrow> Inl e
                | Inr r \<Rightarrow>
                    (case band_loop (polarIM g) r (resolve_ranges r radial_ranges) [] [] of
                       Inl e \<Rightarrow> Inl e
                     | Inr (intensity, radial_midpt) \<Rightarrow>
                         Inr (intensity, theta, radial_midpt)))))"

section \<open>\<open>radial_integration\<close> on a store of objects\<close>

text \<open>
  The objects a call of \<open>radial_integration\<close> touches, as Python holds them: numpy
  arrays and Python lists are mutable objects reached through references, floats and
  tuples of floats are immutable values. The store is the list of all objects, and a
  reference is an index into it. The caller's image and band list are objects of the
  store the call starts in.
\<close>

datatype obj =
    Array2 array2
  | Array1 array1
  | BoolArray "bool list"
  | TupleList "band list"
  | RefList "nat list"
  | FloatList "real list"

type_synonym heap = "obj list"

text \<open>
  A statement takes the store and returns a value or an error together with the store
  it leaves. \<open>new_obj\<close> allocates, \<open>get_obj\<close> reads through a reference and
  \<open>put_obj\<close> overwrites the object a reference points to: it is the one way a
  statement can change an object that exists already.
\<close>

type_synonym 'a action = "heap \<Rightarrow> (error + 'a) \<times> heap"

definition give :: "'a \<Rightarrow> 'a action" where
  "give x h = (Inr x, h)"

definition raise_err :: "error \<Rightarrow> 'a action" where
  "raise_err e h = (Inl e, h)"

definition then_do :: "'a action \<Rightarrow> ('a \<Rightarrow> 'b action) \<Rightarrow> 'b action" where
  "then_do m f h = (case m h of (Inl e, h') \<Rightarrow> (Inl e, h') | (Inr x, h') \<Rightarrow> f x h')"

definition new_obj :: "obj \<Rightarrow> nat action" where
  "new_obj ob h = (Inr (length h), h @ [ob])"

definition get_obj :: "nat \<Rightarrow> obj action" where
  "get_obj a h = (if a < length h then (Inr (h ! a), h) else (Inl TypeError, h))"

definition put_obj :: "nat \<Rightarrow> obj \<Rightarrow> unit action" where
  "put_obj a ob h = (Inr (), h[a := ob])"

definition get_array2 :: "nat \<Rightarrow> array2 action" where
  "get_array2 a = then_do (get_obj a) (\<lambda>ob. case ob of Array2 A \<Rightarrow> give A | _ \<Rightarrow> raise_err TypeError)"

definition get_array1 :: "nat \<Rightarrow> array1 action" where
  "get_array1 a = then_do (get_obj a) (\<lambda>ob. case ob of Array1 v \<Rightarrow> give v | _ \<Rightarrow> raise_err TypeError)"

definition get_bools :: "nat \<Rightarrow> bool list action" where
  "get_bools a = then_do (get_obj a) (\<lambda>ob. case ob of BoolArray v \<Rightarrow> give v | _ \<Rightarrow> raise_err TypeError)"

definition get_tuples :: "nat \<Rightarrow> band list action" where
  "get_tuples a = then_do (get_obj a) (\<lambda>ob. case ob of TupleList v \<Rightarrow> give v | _ \<Rightarrow> raise_err TypeError)"

definition get_refs :: "nat \<Rightarrow> nat list action" where
  "get_refs a = then_do (get_obj a) (\<lambda>ob. case ob of RefList v \<Rightarrow> give v | _ \<Rightarrow> raise_err TypeError)"

definition get_floats :: "nat \<Rightarrow> real list action" where
  "get_floats a = then_do (get_obj a) (\<lambda>ob. case ob of FloatList v \<Rightarrow> give v | _ \<Rightarrow> raise_err TypeError)"

text \<open>
  Line 142. The resampler reads the image and returns three arrays of its own; it is
  taken not to write to any object, as sections 5 and 6 of the specification describe it.
\<close>

definition py_reproject :: "resampler \<Rightarrow> nat \<Rightarrow> (nat \<times> nat \<times> nat) action" where
  "py_reproject rp IM =
     then_do (get_array2 IM) (\<lambda>im.
       case rp im None None None None of
         Inl e \<Rightarrow> raise_err e
       | Inr g \<Rightarrow>
           then_do (new_obj (Array2 (polarIM g))) (\<lambda>p.
           then_do (new_obj (Array2 (R g))) (\<lambda>rg.
           then_do (new_obj (Array2 (T g))) (\<lambda>tg. give (p, rg, tg)))))"

text \<open>
  Lines 144 and 145: \<open>theta_grid[0, :]\<close> and \<open>r_grid[:, 0]\<close>. numpy returns views of
  the grids; nothing is ever written through them, and they are new objects with the
  same values here.
\<close>

definition np_row0 :: "nat \<Rightarrow> nat action" where
  "np_row0 a =
     then_do (get_array2 a) (\<lambda>A.
       case row0 A of Inl e \<Rightarrow> raise_err e | Inr v \<Rightarrow> new_obj (Array1 v))"

definition np_col0 :: "nat \<Rightarrow> nat action" where
  "np_col0 a =
     then_do (get_array2 a) (\<lambda>A.
       case col0 A of Inl e \<Rightarrow> raise_err e | Inr v \<Rightarrow> new_obj (Array1 v))"

text \<open>Line 150: \<open>list(zip(r[:-k], r[k:]))\<close>, a new list of tuples.\<close>

definition py_zip_slices :: "nat \<Rightarrow> int \<Rightarrow> nat action" where
  "py_zip_slices r k =
     then_do (get_array1 r) (\<lambda>rv. new_obj (TupleList (zip (slice_to rv (- k)) (slice_from rv k))))"

text \<open>
  Lines 155 and 158: the mask is a new boolean array (the two comparison arrays it is
  made from are temporaries and are left out), \<open>polarIM[subr]\<close> a copy of the
  selected rows and \<open>np.sum(..., axis=0)\<close> a new array.
\<close>

definition np_in_range :: "nat \<Rightarrow> band \<Rightarrow> nat action" where
  "np_in_range r rr = then_do (get_array1 r) (\<lambda>rv. new_obj (BoolArray (in_range_mask rv rr)))"

definition np_select_sum :: "nat \<Rightarrow> nat \<Rightarrow> nat action" where
  "np_select_sum P subr =
     then_do (get_array2 P) (\<lambda>Pv.
     then_do (get_bools subr) (\<lambda>sel.
       case bool_index Pv sel of
         Inl e \<Rightarrow> raise_err e
       | Inr rows \<Rightarrow>
           then_do (new_obj (Array2 rows)) (\<lambda>selected.
             new_obj (Array1 (sum_axis0 (ncols Pv) rows)))))"

text \<open>
  Lines 158 and 159: \<open>list.append\<close> changes the list object in place. The first list
  holds references to arrays, the second floats.
\<close>

definition list_append_ref :: "nat \<Rightarrow> nat \<Rightarrow> unit action" where
  "list_append_ref l a = then_do (get_refs l) (\<lambda>xs. put_obj l (RefList (xs @ [a])))"

definition list_append_float :: "nat \<Rightarrow> real \<Rightarrow> unit action" where
  "list_append_float l x = then_do (get_floats l) (\<lambda>xs. put_obj l (FloatList (xs @ [x])))"

text \<open>Line 161: \<open>np.array\<close> of a list of arrays reads each of them into a new array.\<close>

fun get_rows :: "nat list \<Rightarrow> array2 action" where
  "get_rows [] = give []"
| "get_rows (a # rest) =
     then_do (get_array1 a) (\<lambda>v. then_do (get_rows rest) (\<lambda>vs. give (v # vs)))"

definition np_array_of_list :: "nat \<Rightarrow> nat action" where
  "np_array_of_list l =
     then_do (get_refs l) (\<lambda>xs. then_do (get_rows xs) (\<lambda>rows. new_obj (Array2 rows)))"

text \<open>
  The argument \<open>radial_ranges\<close> as passed: \<open>None\<close>, an int, or a reference to the
  caller's list of tuples.
\<close>

datatype ranges_arg = ArgNone | ArgInt int | ArgList nat

text \<open>
  The loop of lines 154 to 159, statement by statement, over the tuples of the list
  \<open>radial_ranges\<close> refers to when the loop starts.
\<close>

fun py_band_loop :: "nat \<Rightarrow> nat \<Rightarrow> nat \<Rightarrow> nat \<Rightarrow> band list \<Rightarrow> unit action" where
  "py_band_loop polarIM_ref r_ref ivt mid [] = give ()"
| "py_band_loop polarIM_ref r_ref ivt mid (rr # rest) =
     then_do (np_in_range r_ref rr) (\<lambda>subr.
     then_do (np_select_sum polarIM_ref subr) (\<lambda>s.
     then_do (list_append_ref ivt s) (\<lambda>u.
     then_do (list_append_float mid (mean2 rr)) (\<lambda>u.
       py_band_loop polarIM_ref r_ref ivt mid rest))))"

text \<open>
  The body of \<open>radial_integration\<close>, lines 142 to 161. Lines 148 and 150 rebind the
  local name \<open>radial_ranges\<close>; lines 152 and 153 create the two lists. The result is
  the triple of references the function returns.
\<close>

definition radial_integration_heap ::
  "resampler \<Rightarrow> nat \<Rightarrow> ranges_arg \<Rightarrow> (nat \<times> nat \<times> nat) action" where
  "radial_integration_heap rp IM radial_ranges =
     then_do (py_reproject rp IM) (\<lambda>(polarIM_ref, r_grid, theta_grid).
     then_do (np_row0 theta_grid) (\<lambda>theta.
     then_do (np_col0 r_grid) (\<lambda>r.
     then_do (case (case radial_ranges of ArgNone \<Rightarrow> ArgInt 1 | x \<Rightarrow> x) of
                ArgInt k \<Rightarrow> py_zip_slices r k
              | ArgList l \<Rightarrow> give l
              | ArgNone \<Rightarrow> raise_err TypeError) (\<lambda>radial_ranges'.
     then_do (new_obj (RefList [])) (\<lambda>intensity_vs_theta_at_R.
     then_do (new_obj (FloatList [])) (\<lambda>radial_midpt.
     then_do (get_tuples radial_ranges') (\<lambda>bands.
     then_do (py_band_loop polarIM_ref r intensity_vs_theta_at_R radial_midpt bands) (\<lambda>u.
     then_do (np_array_of_list intensity_vs_theta_at_R) (\<lambda>out.
       give (out, theta, radial_midpt))))))))))"

text \<open>
  Reading the store: the image and the band list the caller passed, and the value of a
  returned triple.
\<close>

definition read_image :: "heap \<Rightarrow> nat \<Rightarrow> array2 option" where
  "read_image h a =
     (if a < length h then (case h ! a of Array2 A \<Rightarrow> Some A | _ \<Rightarrow> None) else None)"

definition read_ranges :: "heap \<Rightarrow> ranges_arg \<Rightarrow> radial_ranges option" where
  "read_ranges h arg =
     (case arg of
        ArgNone \<Rightarrow> Some RNone
      | ArgInt k \<Rightarrow> Some (RStep k)
      | ArgList l \<Rightarrow>
          (if l < length h then (case h ! l of TupleList bs \<Rightarrow> Some (RExplicit bs) | _ \<Rightarrow> None)
           else None))"

definition read_result ::
  "heap \<Rightarrow> error + (nat \<times> nat \<times> nat) \<Rightarrow> (error + (array2 \<times> array1 \<times> array1)) option" where
  "read_result h res =
     (case res of
        Inl e \<Rightarrow> Some (Inl e)
      | Inr (out, theta, mid) \<Rightarrow>
          (if out < length h \<and> theta < length h \<and> mid < length h
           then (case (h ! out, h ! theta, h ! mid) of
                   (Array2 A, Array1 t, FloatList m) \<Rightarrow> Some (Inr (A, t, m))
                 | _ \<Rightarrow> None)
           else None))"

text \<open>
  For the loop: the arrays a list of references points to, and the condition that every
  reference of the list points to a one-dimensional array other than the two lists.
\<close>

definition rows_at :: "heap \<Rightarrow> nat list \<Rightarrow> array2" where
  "rows_at h refs = map (\<lambda>a. case h ! a of Array1 v \<Rightarrow> v | _ \<Rightarrow> []) refs"

definition refs_ok :: "heap \<Rightarrow> nat \<Rightarrow> nat \<Rightarrow> nat list \<Rightarrow> bool" where
  "refs_ok h ivt mid refs \<longleftrightarrow>
     (\<forall>a\<in>set refs. a < length h \<and> a \<noteq> ivt \<and> a \<noteq> mid \<and> (\<exists>v. h ! a = Array1 v))"

section \<open>\<open>anisotropy_parameter\<close>\<close>

definition P2 :: "real \<Rightarrow> real" where
  "P2 x = (3 * x * x - 1) / 2"

definition PAD :: "real \<Rightarrow> real \<Rightarrow> real \<Rightarrow> real" where
  "PAD theta beta amplitude = amplitude * (1 + beta * P2 (cos theta))"

text \<open>The loop of lines 208 to 211 over \<open>theta_ranges\<close>, starting from \<open>np.ones\<close>.\<close>

fun subtheta_loop :: "array1 \<Rightarrow> band list \<Rightarrow> bool list \<Rightarrow> bool list" where
  "subtheta_loop theta [] subtheta = subtheta"
| "subtheta_loop theta (rt # rest) subtheta =
     subtheta_loop theta rest (map2 (\<lambda>a b. a \<and> b) subtheta (in_range_mask theta rt))"

text \<open>Lines 207 to 213: the data kept for the fit.\<close>

definition select_theta ::
  "array1 \<Rightarrow> array1 \<Rightarrow> band list option \<Rightarrow> error + (array1 \<times> array1)"
where
  "select_theta theta intensity theta_ranges =
     (case theta_ranges of
        None \<Rightarrow> Inr (theta, intensity)
      | Some ranges \<Rightarrow>
          (let subtheta = subtheta_loop theta ranges (replicate (length theta) True)
           in (case bool_index theta subtheta of
                 Inl e \<Rightarrow> Inl e
               | Inr theta' \<Rightarrow>
                   (case bool_index intensity subtheta of
                      Inl e \<Rightarrow> Inl e
                    | Inr intensity' \<Rightarrow> Inr (theta', intensity')))))"

text \<open>
  \<open>scipy.optimize.curve_fit\<close> is not part of this module. It is a parameter: it takes
  the model function and the two data arrays, and returns the parameter vector \<open>popt\<close>
  with the 2 by 2 covariance matrix \<open>pcov\<close>, or raises.
\<close>

type_synonym fit_result = "(real \<times> real) \<times> ((real \<times> real) \<times> (real \<times> real))"

type_synonym solver =
  "(real \<Rightarrow> real \<Rightarrow> real \<Rightarrow> real) \<Rightarrow> array1 \<Rightarrow> array1 \<Rightarrow> error + fit_result"

text \<open>Lines 216 to 221: the fit and the unpacking of its result.\<close>

definition fit_PAD ::
  "solver \<Rightarrow> array1 \<Rightarrow> array1 \<Rightarrow> error + ((real \<times> real) \<times> (real \<times> real))"
where
  "fit_PAD curve_fit theta intensity =
     (case curve_fit PAD theta intensity of
        Inl e \<Rightarrow> Inl e
      | Inr (popt, pcov) \<Rightarrow>
          (let beta = fst popt; amplitude = snd popt;
               error_beta = sqrt (fst (fst pcov));
               error_amplitude = sqrt (snd (snd pcov))
           in Inr ((beta, error_beta), (amplitude, error_amplitude))))"

definition anisotropy_parameter ::
  "solver \<Rightarrow> array1 \<Rightarrow> array1 \<Rightarrow> band list option
     \<Rightarrow> error + ((real \<times> real) \<times> (real \<times> real))"
where
  "anisotropy_parameter curve_fit theta intensity theta_ranges =
     (case select_theta theta intensity theta_ranges of
        Inl e \<Rightarrow> Inl e
      | Inr (theta', intensity') \<Rightarrow> fit_PAD curve_fit theta' intensity')"

section \<open>Auxiliary definitions for the statements\<close>

text \<open>
  The rows of the polar image that a band selects: those whose radius lies in
  \<open>[r_lo, r_hi]\<close>, both ends included.
\<close>

definition band_rows :: "array2 \<Rightarrow> array1 \<Rightarrow> band \<Rightarrow> array2" where
  "band_rows P r rr = map fst (filter (\<lambda>(row, x). fst rr \<le> x \<and> x \<le> snd rr) (zip P r))"


text \<open>
  Stand-ins for the two external collaborators, to run the functions on concrete data.
  The resampler takes the image as already sampled on the grids \<open>Rg\<close> and \<open>Tg\<close>
  and multiplies it by the radius when its Jacobian flag is set; the solver returns
  fixed parameters.
\<close>

definition demo_resampler :: "array2 \<Rightarrow> array2 \<Rightarrow> resampler" where
  "demo_resampler Rg Tg IM origin Jacobian dr dt =
     Inr \<lparr>polarIM =
            (if (case Jacobian of None \<Rightarrow> False | Some j \<Rightarrow> truthy j)
             then map2 (\<lambda>a b. map2 (\<lambda>x y. x * y) a b) IM Rg else IM),
          R = Rg, T = Tg\<rparr>"

definition demo_solver :: solver where
  "demo_solver f xdata ydata = Inr ((2, 1), ((0, 0), (0, 0)))"

section \<open>Properties of the array operations\<close>

lemma trapz_sum:
  "trapz d y = (\<Sum>j<length y - 1. d * (y ! Suc j + y ! j) / 2)"
proof -
  let ?zs = "map2 (\<lambda>a b. d * (a + b) / 2) (tl y) (butlast y)"
  have len: "length ?zs = length y - 1" by simp
  have nth: "?zs ! j = d * (y ! Suc j + y ! j) / 2" if "j < length y - 1" for j
    using that by (simp add: nth_tl nth_butlast)
  have "sum_list ?zs = (\<Sum>j = 0..<length ?zs. ?zs ! j)"
    by (rule sum_list_sum_nth)
  also have "\<dots> = (\<Sum>j<length y - 1. ?zs ! j)"
    unfolding len by (simp add: atLeast0LessThan)
  also have "\<dots> = (\<Sum>j<length y - 1. d * (y ! Suc j + y ! j) / 2)"
    by (intro sum.cong refl nth) simp
  finally show ?thesis by (simp add: trapz_def)
qed

lemma shape_ok_nth:
  "shape_ok nr nt A \<Longrightarrow> i < nr \<Longrightarrow> length (A ! i) = nt"
  by (simp add: shape_ok_def list_all_length)

lemma shape_ok_length: "shape_ok nr nt A \<Longrightarrow> length A = nr"
  by (simp add: shape_ok_def)

lemma shape_ok_same: "shape_ok nr nt A \<Longrightarrow> shape_ok nr nt B \<Longrightarrow> same_shape A B"
  by (auto simp: shape_ok_def same_shape_def list_all_length intro!: nth_equalityI)

lemma mul2_shape:
  assumes "shape_ok nr nt A" "shape_ok nr nt B"
  shows "\<exists>C. mul2 A B = Inr C \<and> shape_ok nr nt C \<and>
           (\<forall>i<nr. \<forall>j<nt. C ! i ! j = A ! i ! j * B ! i ! j)"
  using assms shape_ok_same[OF assms]
  by (auto simp: mul2_def shape_ok_def list_all_length)

lemma abs_sin_shape: "shape_ok nr nt A \<Longrightarrow> shape_ok nr nt (abs_sin A)"
  by (simp add: shape_ok_def abs_sin_def list_all_length)

lemma abs_sin_nth: "shape_ok nr nt A \<Longrightarrow> i < nr \<Longrightarrow> j < nt \<Longrightarrow> abs_sin A ! i ! j = \<bar>sin (A ! i ! j)\<bar>"
  by (simp add: shape_ok_def abs_sin_def list_all_length)

lemma first_step_ok:
  "shape_ok nr nt A \<Longrightarrow> 0 < nr \<Longrightarrow> 2 \<le> nt \<Longrightarrow> first_step A = Inr (A ! 0 ! 1 - A ! 0 ! 0)"
  by (cases A) (auto simp: first_step_def shape_ok_def)

lemma col0_ok:
  "shape_ok nr nt A \<Longrightarrow> 0 < nt \<Longrightarrow> col0 A = Inr (map hd A)"
  by (auto simp: col0_def shape_ok_def list_all_iff list_ex_iff)

lemma row0_ok:
  "shape_ok nr nt A \<Longrightarrow> 0 < nr \<Longrightarrow> row0 A = Inr (hd A) \<and> length (hd A) = nt"
  by (cases A) (auto simp: row0_def shape_ok_def)

lemma hd_nth0: "xs \<noteq> [] \<Longrightarrow> hd xs = xs ! 0"
  by (cases xs) auto


lemma sum_axis0_acc:
  "list_all (\<lambda>row. length row = length acc) rows \<Longrightarrow>
     length (foldl (\<lambda>acc row. map2 (\<lambda>x y. x + y) acc row) acc rows) = length acc"
  by (induction rows arbitrary: acc) auto

lemma sum_axis0_length:
  "list_all (\<lambda>row. length row = n) rows \<Longrightarrow> length (sum_axis0 n rows) = n"
  using sum_axis0_acc[of "replicate n 0" rows] by (simp add: sum_axis0_def)

lemma sum_axis0_Nil: "sum_axis0 n [] = replicate n 0"
  by (simp add: sum_axis0_def)

lemma bool_index_rows:
  "length P = length r \<Longrightarrow>
     bool_index P (in_range_mask r rr) =
       Inr (map fst (filter (\<lambda>(row, x). fst rr \<le> x \<and> x \<le> snd rr) (zip P r)))"
proof -
  have "map fst (filter snd (zip P (map Q r))) = map fst (filter (\<lambda>(row, x). Q x) (zip P r))"
    if "length P = length r" for Q :: "real \<Rightarrow> bool"
    using that by (induction P r rule: list_induct2) auto
  then show "length P = length r \<Longrightarrow> ?thesis"
    by (simp add: bool_index_def in_range_mask_def)
qed

lemma band_loop_result:
  "length P = length r \<Longrightarrow>
     band_loop P r bands acc_i acc_m =
       Inr (acc_i @ map (\<lambda>rr. sum_axis0 (ncols P) (band_rows P r rr)) bands,
            acc_m @ map mean2 bands)"
  by (induction bands arbitrary: acc_i acc_m) (simp_all add: bool_index_rows band_rows_def)

lemma band_rows_empty:
  "\<forall>x\<in>set r. \<not> (fst rr \<le> x \<and> x \<le> snd rr) \<Longrightarrow> band_rows P r rr = []"
  by (auto simp: band_rows_def filter_empty_conv dest: set_zip_rightD)

lemma ncols_shape: "shape_ok nr nt P \<Longrightarrow> 0 < nr \<Longrightarrow> ncols P = nt"
  by (cases P) (auto simp: ncols_def shape_ok_def)

lemma resolve_ranges_step:
  assumes "0 < k"
  shows "resolve_ranges r (RStep k) =
           map (\<lambda>i. (r ! i, r ! (i + nat k))) [0..<length r - nat k]"
proof -
  have "slice_to r (- k) = take (length r - nat k) r"
    using assms by (simp add: slice_to_def) (metis nat_diff_distrib' nat_int of_nat_0_le_iff less_imp_le)
  moreover have "slice_from r k = drop (nat k) r"
    using assms by (simp add: slice_from_def)
  ultimately have "resolve_ranges r (RStep k) = zip (take (length r - nat k) r) (drop (nat k) r)"
    by (simp add: resolve_ranges_def)
  also have "\<dots> = map (\<lambda>i. (r ! i, r ! (i + nat k))) [0..<length r - nat k]"
    by (rule nth_equalityI) (auto simp: add.commute)
  finally show ?thesis .
qed

lemma resolve_ranges_None: "resolve_ranges r RNone = resolve_ranges r (RStep 1)"
  by (simp add: resolve_ranges_def)

lemma subtheta_loop_eq:
  "length sub = length theta \<Longrightarrow>
     subtheta_loop theta ranges sub =
       map2 (\<lambda>s t. s \<and> (\<forall>rt\<in>set ranges. fst rt \<le> t \<and> t \<le> snd rt)) sub theta"
proof (induction ranges arbitrary: sub)
  case Nil
  then show ?case by (auto intro!: nth_equalityI)
next
  case (Cons rt rest)
  have "length (map2 (\<lambda>a b. a \<and> b) sub (in_range_mask theta rt)) = length theta"
    using Cons.prems by (simp add: in_range_mask_def)
  from Cons.IH[OF this] show ?case
    using Cons.prems
    by (auto simp: in_range_mask_def intro!: nth_equalityI)
qed

lemma subtheta_ones:
  "subtheta_loop theta ranges (replicate (length theta) True) =
     map (\<lambda>t. \<forall>rt\<in>set ranges. fst rt \<le> t \<and> t \<le> snd rt) theta"
  by (subst subtheta_loop_eq) (auto intro!: nth_equalityI)

lemma bool_index_map:
  "bool_index xs (map Q xs) = Inr (filter Q xs)"
  by (simp add: bool_index_def) (induction xs, auto)

lemma bool_index_map2:
  "length ys = length xs \<Longrightarrow>
     bool_index ys (map Q xs) = Inr (map snd (filter (\<lambda>(x, y). Q x) (zip xs ys)))"
proof -
  assume len: "length ys = length xs"
  then have "map fst (filter snd (zip ys (map Q xs))) = map snd (filter (\<lambda>(x, y). Q x) (zip xs ys))"
    by (induction ys xs rule: list_induct2) auto
  with len show ?thesis by (simp add: bool_index_def)
qed

lemma filter_zip_fst:
  "length ys = length xs \<Longrightarrow> map fst (filter (\<lambda>(x, y). Q x) (zip xs ys)) = filter Q xs"
  by (induction ys xs rule: list_induct2) auto


section \<open>Claims about \<open>average_radial_intensity\<close>\<close>

lemma kw_keys_ok:
  "set (map fst kw) \<subseteq> {''origin'', ''dr'', ''dt''} \<Longrightarrow>
     call_angular_integration_Jacobian_False rp IM kw =
       angular_integration rp IM (kw_get kw ''origin'' PyNone) (PyBool False)
         (kw_get kw ''dr'' (PyInt 1)) (kw_get kw ''dt'' PyNone)"
  unfolding call_angular_integration_Jacobian_False_def list_ex_iff
  by (auto simp del: set_map)

text \<open>
  What the code computes, for every image and every choice of \<open>origin\<close>, \<open>dr\<close>,
  \<open>dt\<close>: the resampler is run with \<open>Jacobian=False\<close>, the polar image it returns
  is integrated over the angle as it is, and each value is divided by \<open>2\<pi>\<close>.
\<close>

lemma average_radial_intensity_unfolded:
  "set (map fst kw) \<subseteq> {''origin'', ''dr'', ''dt''} \<Longrightarrow>
     average_radial_intensity rp IM kw =
       (case rp IM (Some (kw_get kw ''origin'' PyNone)) (Some (PyBool False))
                (Some (kw_get kw ''dr'' (PyInt 1))) (Some (kw_get kw ''dt'' PyNone)) of
          Inl e \<Rightarrow> Inl e
        | Inr g \<Rightarrow>
            (case first_step (T g) of
               Inl e \<Rightarrow> Inl e
             | Inr d \<Rightarrow>
                 (case col0 (take (length (polarIM g)) (R g)) of
                    Inl e \<Rightarrow> Inl e
                  | Inr r \<Rightarrow> Inr (r, map (\<lambda>row. trapz d row / (2 * pi)) (polarIM g)))))"
  by (simp add: average_radial_intensity_def kw_keys_ok angular_integration_def trapz_axis1_def
      split: sum.splits)


text \<open>
  Claim C2: for every image and every choice of the keyword arguments \<open>origin\<close>,
  \<open>dr\<close>, \<open>dt\<close>, \<open>average_radial_intensity\<close> returns the radial coordinates of
  \<open>angular_integration\<close> called with \<open>Jacobian=False\<close> and its intensities divided
  by \<open>2\<pi>\<close>; it fails where \<open>angular_integration\<close> fails.
\<close>

theorem average_radial_intensity_eq_angular_integration:
  "set (map fst kw) \<subseteq> {''origin'', ''dr'', ''dt''} \<Longrightarrow>
     average_radial_intensity rp IM kw =
       (case angular_integration rp IM (kw_get kw ''origin'' PyNone) (PyBool False)
               (kw_get kw ''dr'' (PyInt 1)) (kw_get kw ''dt'' PyNone) of
          Inl e \<Rightarrow> Inl e
        | Inr (r, speeds) \<Rightarrow> Inr (r, map (\<lambda>x. x / (2 * pi)) speeds))"
  by (simp add: average_radial_intensity_def kw_keys_ok)

theorem average_radial_intensity_eq_angular_integration_witness:
  "set (map fst [(''dr'', PyFloat (1 / 2))]) \<subseteq> {''origin'', ''dr'', ''dt''} \<and>
   angular_integration (demo_resampler [[1, 1], [2, 2]] [[0, pi / 2], [0, pi / 2]])
     [[1, 1], [1, 1]] PyNone (PyBool False) (PyFloat (1 / 2)) PyNone = Inr ([1, 2], [pi / 2, pi / 2]) \<and>
   average_radial_intensity (demo_resampler [[1, 1], [2, 2]] [[0, pi / 2], [0, pi / 2]])
     [[1, 1], [1, 1]] [(''dr'', PyFloat (1 / 2))] = Inr ([1, 2], [1 / 4, 1 / 4])"
proof -
  have h: "set (map fst [(''dr'', PyFloat (1 / 2))]) \<subseteq> {''origin'', ''dr'', ''dt''}" by simp
  have a: "angular_integration (demo_resampler [[1, 1], [2, 2]] [[0, pi / 2], [0, pi / 2]])
     [[1, 1], [1, 1]] PyNone (PyBool False) (PyFloat (1 / 2)) PyNone = Inr ([1, 2], [pi / 2, pi / 2])"
    by (simp add: angular_integration_def demo_resampler_def first_step_def trapz_axis1_def
        trapz_def col0_def)
  show ?thesis using h a average_radial_intensity_eq_angular_integration[OF h, of "demo_resampler [[1, 1], [2, 2]] [[0, pi / 2], [0, pi / 2]]" "[[1, 1], [1, 1]]"]
    by (simp add: kw_get_def)
qed

text \<open>
  Claim C10: a call of \<open>average_radial_intensity\<close> whose keyword arguments contain
  \<open>Jacobian\<close>, with any value, raises TypeError: the function writes
  \<open>Jacobian=False\<close> itself in the call it forwards the keywords to.
\<close>

theorem average_radial_intensity_rejects_Jacobian_keyword: 
  "''Jacobian'' \<in> set (map fst kw) \<Longrightarrow> average_radial_intensity rp IM kw = Inl TypeError"
  by (simp add: average_radial_intensity_def call_angular_integration_Jacobian_False_def)

theorem average_radial_intensity_rejects_Jacobian_keyword_witness:
  "''Jacobian'' \<in> set (map fst [(''Jacobian'', PyBool True)]) \<and>
   average_radial_intensity (demo_resampler [[1, 1], [2, 2]] [[0, pi / 2], [0, pi / 2]])
     [[1, 1], [1, 1]] [(''Jacobian'', PyBool True)] = Inl TypeError"
proof -
  have h: "''Jacobian'' \<in> set (map fst [(''Jacobian'', PyBool True)])" by simp
  show ?thesis using h average_radial_intensity_rejects_Jacobian_keyword[OF h] by simp
qed


section \<open>Claim about \<open>angular_integration\<close>\<close>

text \<open>
  Claim C4: when \<open>angular_integration\<close> is called with a true \<open>Jacobian\<close> flag, on a
  grid of shape \<open>nr \<times> nt\<close> with at least two angular samples, it returns one value per
  radial bin: the trapezoidal sum, over the angular axis, of the polar image multiplied
  element by element by \<open>R * |sin(T)|\<close>, with the step \<open>T[0,1] - T[0,0]\<close>; the radii
  are the first column of \<open>R\<close>.
\<close>

theorem angular_integration_Jacobian_trapezoid:
  assumes J: "truthy Jacobian"
    and rp: "rp IM (Some origin) (Some Jacobian) (Some dr) (Some dt) = Inr g"
    and ok: "grid_ok nr nt g" and nr: "0 < nr" and nt: "2 \<le> nt"
  shows "\<exists>r speeds.
           angular_integration rp IM origin Jacobian dr dt = Inr (r, speeds) \<and>
           length r = nr \<and> length speeds = nr \<and>
           (\<forall>i<nr.
              r ! i = R g ! i ! 0 \<and>
              speeds ! i =
                (\<Sum>j<nt - 1.
                   (T g ! 0 ! 1 - T g ! 0 ! 0) *
                   (polarIM g ! i ! Suc j * R g ! i ! Suc j * \<bar>sin (T g ! i ! Suc j)\<bar> +
                    polarIM g ! i ! j * R g ! i ! j * \<bar>sin (T g ! i ! j)\<bar>) / 2))"
proof -
  from ok have sP: "shape_ok nr nt (polarIM g)" and sR: "shape_ok nr nt (R g)"
    and sT: "shape_ok nr nt (T g)"
    by (simp_all add: grid_ok_def)
  let ?d = "T g ! 0 ! 1 - T g ! 0 ! 0"
  have step: "first_step (T g) = Inr ?d"
    using first_step_ok[OF sT nr nt] .
  obtain W where W: "mul2 (polarIM g) (R g) = Inr W" "shape_ok nr nt W"
    and Wn: "\<And>i j. i < nr \<Longrightarrow> j < nt \<Longrightarrow> W ! i ! j = polarIM g ! i ! j * R g ! i ! j"
    using mul2_shape[OF sP sR] by blast
  obtain P where P: "mul2 W (abs_sin (T g)) = Inr P" "shape_ok nr nt P"
    and Pn: "\<And>i j. i < nr \<Longrightarrow> j < nt \<Longrightarrow> P ! i ! j = W ! i ! j * abs_sin (T g) ! i ! j"
    using mul2_shape[OF W(2) abs_sin_shape[OF sT]] by blast
  have Pw: "P ! i ! j = polarIM g ! i ! j * R g ! i ! j * \<bar>sin (T g ! i ! j)\<bar>"
    if "i < nr" "j < nt" for i j
    using that by (simp add: Pn Wn abs_sin_nth[OF sT])
  have lenP: "length P = nr" using P(2) by (rule shape_ok_length)
  have lenR: "length (R g) = nr" using sR by (rule shape_ok_length)
  have col: "col0 (take nr (R g)) = Inr (map hd (R g))"
    using col0_ok[OF sR] nt lenR by simp
  have res: "angular_integration rp IM origin Jacobian dr dt =
               Inr (map hd (R g), map (trapz ?d) P)"
    by (simp add: angular_integration_def rp step J W(1) P(1) trapz_axis1_def lenP col)
  have r_nth: "map hd (R g) ! i = R g ! i ! 0" if "i < nr" for i
  proof -
    have "length (R g ! i) = nt" using shape_ok_nth[OF sR that] .
    with nt have "R g ! i \<noteq> []" by auto
    then show ?thesis using that lenR by (simp add: hd_nth0)
  qed
  have s_nth: "map (trapz ?d) P ! i =
      (\<Sum>j<nt - 1. ?d * (polarIM g ! i ! Suc j * R g ! i ! Suc j * \<bar>sin (T g ! i ! Suc j)\<bar> +
                    polarIM g ! i ! j * R g ! i ! j * \<bar>sin (T g ! i ! j)\<bar>) / 2)"
    if i: "i < nr" for i
  proof -
    have len: "length (P ! i) = nt" using shape_ok_nth[OF P(2) i] .
    have "map (trapz ?d) P ! i = trapz ?d (P ! i)" using i lenP by simp
    also have "\<dots> = (\<Sum>j<nt - 1. ?d * (P ! i ! Suc j + P ! i ! j) / 2)"
      by (simp add: trapz_sum len)
    also have "\<dots> = (\<Sum>j<nt - 1. ?d * (polarIM g ! i ! Suc j * R g ! i ! Suc j * \<bar>sin (T g ! i ! Suc j)\<bar> +
                    polarIM g ! i ! j * R g ! i ! j * \<bar>sin (T g ! i ! j)\<bar>) / 2)"
    proof (rule sum.cong[OF refl])
      fix j assume "j \<in> {..<nt - 1}"
      then have "j < nt" "Suc j < nt" by auto
      then show "?d * (P ! i ! Suc j + P ! i ! j) / 2 =
        ?d * (polarIM g ! i ! Suc j * R g ! i ! Suc j * \<bar>sin (T g ! i ! Suc j)\<bar> +
                    polarIM g ! i ! j * R g ! i ! j * \<bar>sin (T g ! i ! j)\<bar>) / 2"
        using i by (simp only: Pw)
    qed
    finally show ?thesis .
  qed
  show ?thesis
    apply (intro exI conjI)
       apply (rule res)
      apply (simp add: lenR)
     apply (simp add: lenP)
    using r_nth s_nth by blast
qed

theorem angular_integration_Jacobian_trapezoid_witness:
  "truthy (PyBool True) \<and>
   demo_resampler [[1, 1], [2, 2]] [[0, pi / 2], [0, pi / 2]] [[1, 1], [1, 1]]
      (Some PyNone) (Some (PyBool True)) (Some (PyInt 1)) (Some PyNone) =
     Inr \<lparr>polarIM = [[1, 1], [2, 2]], R = [[1, 1], [2, 2]], T = [[0, pi / 2], [0, pi / 2]]\<rparr> \<and>
   grid_ok 2 2 \<lparr>polarIM = [[1, 1], [2, 2]], R = [[1, 1], [2, 2]], T = [[0, pi / 2], [0, pi / 2]]\<rparr> \<and>
   (0::nat) < 2 \<and> (2::nat) \<le> 2 \<and>
   angular_integration (demo_resampler [[1, 1], [2, 2]] [[0, pi / 2], [0, pi / 2]])
     [[1, 1], [1, 1]] PyNone (PyBool True) (PyInt 1) PyNone = Inr ([1, 2], [pi / 4, pi])"
proof -
  let ?g = "\<lparr>polarIM = [[1, 1], [2, 2]], R = [[1, 1], [2, 2]], T = [[0, pi / 2], [0, pi / 2]]\<rparr>"
  have h1: "truthy (PyBool True)" by simp
  have h2: "demo_resampler [[1, 1], [2, 2]] [[0, pi / 2], [0, pi / 2]] [[1, 1], [1, 1]]
      (Some PyNone) (Some (PyBool True)) (Some (PyInt 1)) (Some PyNone) = Inr ?g"
    by (simp add: demo_resampler_def)
  have h3: "grid_ok 2 2 ?g" by (simp add: grid_ok_def shape_ok_def)
  have h4: "(0::nat) < 2" and h5: "(2::nat) \<le> 2" by simp_all
  have a: "angular_integration (demo_resampler [[1, 1], [2, 2]] [[0, pi / 2], [0, pi / 2]])
     [[1, 1], [1, 1]] PyNone (PyBool True) (PyInt 1) PyNone = Inr ([1, 2], [pi / 4, pi])"
    using angular_integration_Jacobian_trapezoid[where rp = "demo_resampler [[1, 1], [2, 2]] [[0, pi / 2], [0, pi / 2]]"
        and IM = "[[1, 1], [1, 1]]", OF h1 h2 h3 h4 h5]
    by (simp add: angular_integration_def demo_resampler_def first_step_def mul2_def
        same_shape_def abs_sin_def trapz_axis1_def trapz_def col0_def)
  show ?thesis using h1 h2 h3 a by simp
qed

section \<open>Claims about \<open>radial_integration\<close>\<close>

lemma radial_integration_result:
  assumes rp: "rp IM None None None None = Inr g"
    and ok: "grid_ok nr nt g" and nr: "0 < nr" and nt: "0 < nt"
  shows "radial_integration rp IM radial_ranges =
           Inr (map (\<lambda>rr. sum_axis0 nt (band_rows (polarIM g) (map hd (R g)) rr))
                  (resolve_ranges (map hd (R g)) radial_ranges),
                hd (T g),
                map mean2 (resolve_ranges (map hd (R g)) radial_ranges))"
proof -
  from ok have sP: "shape_ok nr nt (polarIM g)" and sR: "shape_ok nr nt (R g)"
    and sT: "shape_ok nr nt (T g)"
    by (simp_all add: grid_ok_def)
  have len: "length (polarIM g) = length (map hd (R g))"
    using shape_ok_length[OF sP] shape_ok_length[OF sR] by simp
  show ?thesis
    by (simp add: radial_integration_def rp row0_ok[OF sT nr] col0_ok[OF sR nt]
        band_loop_result[OF len] ncols_shape[OF sP nr])
qed

text \<open>
  Claim C3 fails on the code. For the step 2 on the radii \<open>0, 1, 2, 3, 4\<close> the code
  builds the bands \<open>(0, 2), (1, 3), (2, 4)\<close>: the window advances by one sample, so
  neighbouring bands share rows, and the row of radius 2 is summed into all three
  profiles. The docstring of the function describes the windows
  \<open>(r0, r_step), (r_step, r_2step), ...\<close>, which are \<open>(0, 2), (2, 4)\<close> here.
\<close>

theorem radial_integration_step_bands_overlap:
  "resolve_ranges [0, 1, 2, 3, 4] (RStep 2) = [(0, 2), (1, 3), (2, 4)] \<and>
   radial_integration (demo_resampler [[0, 0], [1, 1], [2, 2], [3, 3], [4, 4]]
         [[0, 1], [0, 1], [0, 1], [0, 1], [0, 1]])
     [[1, 0], [0, 1], [2, 0], [0, 2], [3, 0]] (RStep 2) =
     Inr ([[3, 1], [2, 3], [5, 2]], [0, 1], [1, 2, 3])"
  by (simp add: radial_integration_def demo_resampler_def row0_def col0_def resolve_ranges_def
     slice_to_def slice_from_def bool_index_def in_range_mask_def sum_axis0_def ncols_def mean2_def)

text \<open>
  Claim C5: on a grid of shape \<open>nr \<times> nt\<close>, \<open>radial_integration\<close> without
  \<open>radial_ranges\<close> does what it does for the step 1 and succeeds; with
  \<open>r = r_grid[:, 0]\<close> (here \<open>map hd (R g)\<close>) it produces \<open>len(r) - 1\<close> profiles and
  midpoints, band \<open>i\<close> pairs \<open>r[i]\<close> with \<open>r[i+1]\<close>, and its representative radius is
  \<open>(r[i] + r[i+1]) / 2\<close>.
\<close>

theorem radial_integration_default_bands:
  assumes rp: "rp IM None None None None = Inr g"
    and ok: "grid_ok nr nt g" and nr: "0 < nr" and nt: "0 < nt"
  shows "radial_integration rp IM RNone = radial_integration rp IM (RStep 1) \<and>
         (\<exists>intensity theta radial_midpt.
            radial_integration rp IM (RStep 1) = Inr (intensity, theta, radial_midpt) \<and>
            int (length intensity) = int (length (map hd (R g))) - 1 \<and>
            int (length radial_midpt) = int (length (map hd (R g))) - 1 \<and>
            (\<forall>i<length radial_midpt.
               resolve_ranges (map hd (R g)) (RStep 1) ! i =
                 (map hd (R g) ! i, map hd (R g) ! Suc i) \<and>
               radial_midpt ! i = (map hd (R g) ! i + map hd (R g) ! Suc i) / 2))"
proof -
  let ?r = "map hd (R g)"
  have lenr: "length ?r = nr"
    using ok by (simp add: grid_ok_def shape_ok_def)
  have bands: "resolve_ranges ?r (RStep 1) = map (\<lambda>i. (?r ! i, ?r ! (i + nat 1))) [0..<length ?r - nat 1]"
    by (rule resolve_ranges_step) simp
  have res: "radial_integration rp IM (RStep 1) =
           Inr (map (\<lambda>rr. sum_axis0 nt (band_rows (polarIM g) ?r rr)) (resolve_ranges ?r (RStep 1)),
                hd (T g), map mean2 (resolve_ranges ?r (RStep 1)))"
    by (rule radial_integration_result[where rp = rp and IM = IM, OF rp ok nr nt])
  have same: "radial_integration rp IM RNone = radial_integration rp IM (RStep 1)"
    by (simp add: radial_integration_result[where rp = rp and IM = IM, OF rp ok nr nt] resolve_ranges_None)
  have cnt: "int (length (resolve_ranges ?r (RStep 1))) = int (length ?r) - 1"
    using nr lenr by (simp add: bands)
  have pairs: "resolve_ranges ?r (RStep 1) ! i = (?r ! i, ?r ! Suc i) \<and>
      map mean2 (resolve_ranges ?r (RStep 1)) ! i = (?r ! i + ?r ! Suc i) / 2"
    if "i < length (map mean2 (resolve_ranges ?r (RStep 1)))" for i
    using that by (simp add: bands mean2_def)
  show ?thesis
    apply (rule conjI[OF same])
    apply (intro exI conjI)
       apply (rule res)
    using cnt apply simp
    using cnt apply simp
    using pairs by blast
qed

theorem radial_integration_default_bands_witness:
  "demo_resampler [[0, 0], [1, 1], [2, 2]] [[0, 1], [0, 1], [0, 1]] [[1, 0], [0, 1], [2, 0]]
      None None None None =
     Inr \<lparr>polarIM = [[1, 0], [0, 1], [2, 0]], R = [[0, 0], [1, 1], [2, 2]],
          T = [[0, 1], [0, 1], [0, 1]]\<rparr> \<and>
   grid_ok 3 2 \<lparr>polarIM = [[1, 0], [0, 1], [2, 0]], R = [[0, 0], [1, 1], [2, 2]],
                T = [[0, 1], [0, 1], [0, 1]]\<rparr> \<and>
   (0::nat) < 3 \<and> (0::nat) < 2 \<and>
   radial_integration (demo_resampler [[0, 0], [1, 1], [2, 2]] [[0, 1], [0, 1], [0, 1]])
     [[1, 0], [0, 1], [2, 0]] RNone = Inr ([[1, 1], [2, 1]], [0, 1], [1 / 2, 3 / 2])"
proof -
  let ?g = "\<lparr>polarIM = [[1, 0], [0, 1], [2, 0]], R = [[0, 0], [1, 1], [2, 2]],
             T = [[0, 1], [0, 1], [0, 1]]\<rparr>"
  have h1: "demo_resampler [[0, 0], [1, 1], [2, 2]] [[0, 1], [0, 1], [0, 1]]
      [[1, 0], [0, 1], [2, 0]] None None None None = Inr ?g"
    by (simp add: demo_resampler_def)
  have h2: "grid_ok 3 2 ?g" by (simp add: grid_ok_def shape_ok_def)
  have h3: "(0::nat) < 3" and h4: "(0::nat) < 2" by simp_all
  have a: "radial_integration (demo_resampler [[0, 0], [1, 1], [2, 2]] [[0, 1], [0, 1], [0, 1]])
     [[1, 0], [0, 1], [2, 0]] RNone = Inr ([[1, 1], [2, 1]], [0, 1], [1 / 2, 3 / 2])"
    using radial_integration_default_bands[where rp = "demo_resampler [[0, 0], [1, 1], [2, 2]] [[0, 1], [0, 1], [0, 1]]"
        and IM = "[[1, 0], [0, 1], [2, 0]]", OF h1 h2 h3 h4]
    by (simp add: radial_integration_def demo_resampler_def row0_def col0_def
        resolve_ranges_def slice_to_def slice_from_def bool_index_def in_range_mask_def
        sum_axis0_def ncols_def mean2_def)
  show ?thesis using h1 h2 a by simp
qed

text \<open>
  Claim C8: on a grid of shape \<open>nr \<times> nt\<close>, \<open>radial_integration\<close> with an explicit list
  of bands does not raise; it returns one profile per band, and for every band whose
  closed interval contains no grid radius the profile is all zero, of the length of the
  angular axis.
\<close>

theorem radial_integration_empty_band_zero_profile:
  assumes rp: "rp IM None None None None = Inr g"
    and ok: "grid_ok nr nt g" and nr: "0 < nr" and nt: "0 < nt"
  shows "\<exists>intensity theta radial_midpt.
           radial_integration rp IM (RExplicit bands) = Inr (intensity, theta, radial_midpt) \<and>
           length intensity = length bands \<and> theta = hd (T g) \<and> length theta = nt \<and>
           (\<forall>k<length bands.
              (\<forall>x\<in>set (map hd (R g)). \<not> (fst (bands ! k) \<le> x \<and> x \<le> snd (bands ! k))) \<longrightarrow>
              intensity ! k = replicate (length theta) 0)"
proof -
  let ?r = "map hd (R g)"
  from ok have sT: "shape_ok nr nt (T g)" by (simp add: grid_ok_def)
  have res: "radial_integration rp IM (RExplicit bands) =
           Inr (map (\<lambda>rr. sum_axis0 nt (band_rows (polarIM g) ?r rr)) bands,
                hd (T g), map mean2 bands)"
    using radial_integration_result[where rp = rp and IM = IM and radial_ranges = "RExplicit bands", OF rp ok nr nt]
    by (simp add: resolve_ranges_def)
  have lt: "length (hd (T g)) = nt" using row0_ok[OF sT nr] by simp
  have zero: "map (\<lambda>rr. sum_axis0 nt (band_rows (polarIM g) ?r rr)) bands ! k =
     replicate (length (hd (T g))) 0"
    if "k < length bands" "\<forall>x\<in>set ?r. \<not> (fst (bands ! k) \<le> x \<and> x \<le> snd (bands ! k))" for k
    using that by (simp add: band_rows_empty sum_axis0_Nil lt)
  show ?thesis
    apply (intro exI conjI)
        apply (rule res)
       apply simp
      apply (rule refl)
     apply (rule lt)
    using zero by blast
qed

theorem radial_integration_empty_band_zero_profile_witness:
  "demo_resampler [[0, 0], [1, 1], [2, 2]] [[0, 1], [0, 1], [0, 1]] [[1, 0], [0, 1], [2, 0]]
      None None None None =
     Inr \<lparr>polarIM = [[1, 0], [0, 1], [2, 0]], R = [[0, 0], [1, 1], [2, 2]],
          T = [[0, 1], [0, 1], [0, 1]]\<rparr> \<and>
   grid_ok 3 2 \<lparr>polarIM = [[1, 0], [0, 1], [2, 0]], R = [[0, 0], [1, 1], [2, 2]],
                T = [[0, 1], [0, 1], [0, 1]]\<rparr> \<and>
   (0::nat) < 3 \<and> (0::nat) < 2 \<and>
   radial_integration (demo_resampler [[0, 0], [1, 1], [2, 2]] [[0, 1], [0, 1], [0, 1]])
     [[1, 0], [0, 1], [2, 0]] (RExplicit [(1 / 4, 3 / 4), (1, 2)]) =
     Inr ([[0, 0], [2, 1]], [0, 1], [1 / 2, 3 / 2])"
proof -
  let ?g = "\<lparr>polarIM = [[1, 0], [0, 1], [2, 0]], R = [[0, 0], [1, 1], [2, 2]],
             T = [[0, 1], [0, 1], [0, 1]]\<rparr>"
  have h1: "demo_resampler [[0, 0], [1, 1], [2, 2]] [[0, 1], [0, 1], [0, 1]]
      [[1, 0], [0, 1], [2, 0]] None None None None = Inr ?g"
    by (simp add: demo_resampler_def)
  have h2: "grid_ok 3 2 ?g" by (simp add: grid_ok_def shape_ok_def)
  have h3: "(0::nat) < 3" and h4: "(0::nat) < 2" by simp_all
  have a: "radial_integration (demo_resampler [[0, 0], [1, 1], [2, 2]] [[0, 1], [0, 1], [0, 1]])
     [[1, 0], [0, 1], [2, 0]] (RExplicit [(1 / 4, 3 / 4), (1, 2)]) =
     Inr ([[0, 0], [2, 1]], [0, 1], [1 / 2, 3 / 2])"
    using radial_integration_empty_band_zero_profile[where rp = "demo_resampler [[0, 0], [1, 1], [2, 2]] [[0, 1], [0, 1], [0, 1]]"
        and IM = "[[1, 0], [0, 1], [2, 0]]" and bands = "[(1 / 4, 3 / 4), (1, 2)]",
        OF h1 h2 h3 h4]
    by (simp add: radial_integration_def demo_resampler_def row0_def col0_def
        resolve_ranges_def bool_index_def in_range_mask_def
        sum_axis0_def ncols_def mean2_def)
  show ?thesis using h1 h2 a by simp
qed

subsection \<open>Running the body on a store\<close>

lemma then_do_give [simp]: "then_do (give x) f h = f x h"
  by (simp add: then_do_def give_def)

lemma then_do_raise [simp]: "then_do (raise_err e) f h = (Inl e, h)"
  by (simp add: then_do_def raise_err_def)

lemma then_do_new [simp]: "then_do (new_obj ob) f h = f (length h) (h @ [ob])"
  by (simp add: then_do_def new_obj_def)

lemma then_do_put [simp]: "then_do (put_obj a ob) f h = f () (h[a := ob])"
  by (simp add: then_do_def put_obj_def)

lemma then_do_assoc: "then_do (then_do m f) g = then_do m (\<lambda>x. then_do (f x) g)"
  by (rule ext) (simp add: then_do_def split: prod.splits sum.splits)

lemma then_do_get_obj: "a < length h \<Longrightarrow> then_do (get_obj a) f h = f (h ! a) h"
  by (simp add: then_do_def get_obj_def)

lemma then_do_get_array2:
  "a < length h \<Longrightarrow> h ! a = Array2 A \<Longrightarrow> then_do (get_array2 a) f h = f A h"
  by (simp add: get_array2_def then_do_assoc then_do_get_obj)

lemma then_do_get_array1:
  "a < length h \<Longrightarrow> h ! a = Array1 v \<Longrightarrow> then_do (get_array1 a) f h = f v h"
  by (simp add: get_array1_def then_do_assoc then_do_get_obj)

lemma then_do_get_bools:
  "a < length h \<Longrightarrow> h ! a = BoolArray v \<Longrightarrow> then_do (get_bools a) f h = f v h"
  by (simp add: get_bools_def then_do_assoc then_do_get_obj)

lemma then_do_get_tuples:
  "a < length h \<Longrightarrow> h ! a = TupleList v \<Longrightarrow> then_do (get_tuples a) f h = f v h"
  by (simp add: get_tuples_def then_do_assoc then_do_get_obj)

lemma then_do_get_refs:
  "a < length h \<Longrightarrow> h ! a = RefList v \<Longrightarrow> then_do (get_refs a) f h = f v h"
  by (simp add: get_refs_def then_do_assoc then_do_get_obj)

lemma then_do_get_floats:
  "a < length h \<Longrightarrow> h ! a = FloatList v \<Longrightarrow> then_do (get_floats a) f h = f v h"
  by (simp add: get_floats_def then_do_assoc then_do_get_obj)

lemma then_do_get_rows:
  "\<forall>a\<in>set refs. a < length h \<and> (\<exists>v. h ! a = Array1 v) \<Longrightarrow>
     then_do (get_rows refs) f h = f (rows_at h refs) h"
proof (induction refs arbitrary: f)
  case Nil
  then show ?case by (simp add: rows_at_def)
next
  case (Cons a refs)
  from Cons.prems obtain v where a: "a < length h" "h ! a = Array1 v" by auto
  from Cons.prems have rest: "\<forall>a\<in>set refs. a < length h \<and> (\<exists>v. h ! a = Array1 v)" by simp
  show ?case
    using a by (simp add: then_do_assoc then_do_get_array1 Cons.IH[OF rest] rows_at_def)
qed

lemma py_band_loop_run:
  assumes "pr < length H" "H ! pr = Array2 P" "rf < length H" "H ! rf = Array1 rv"
    and "ivt < length H" "H ! ivt = RefList refs" "mid < length H" "H ! mid = FloatList ms"
    and "ivt \<noteq> mid" "pr \<noteq> ivt" "pr \<noteq> mid" "rf \<noteq> ivt" "rf \<noteq> mid"
    and "refs_ok H ivt mid refs"
  shows "\<exists>res H'. py_band_loop pr rf ivt mid bands H = (res, H') \<and>
           length H \<le> length H' \<and>
           (\<forall>a<length H. a \<noteq> ivt \<longrightarrow> a \<noteq> mid \<longrightarrow> H' ! a = H ! a) \<and>
           (case band_loop P rv bands (rows_at H refs) ms of
              Inl e \<Rightarrow> res = Inl e
            | Inr (I, M) \<Rightarrow>
                res = Inr () \<and> ivt < length H' \<and> mid < length H' \<and>
                (\<exists>refs'. H' ! ivt = RefList refs' \<and> refs_ok H' ivt mid refs' \<and>
                          rows_at H' refs' = I) \<and>
                H' ! mid = FloatList M)"
  using assms
proof (induction bands arbitrary: H refs ms)
  case Nil
  then show ?case by (simp add: give_def)
next
  case (Cons rr rest)
  let ?m = "in_range_mask rv rr"
  let ?H1 = "H @ [BoolArray ?m]"
  have run1: "py_band_loop pr rf ivt mid (rr # rest) H =
     (case bool_index P ?m of
        Inl e \<Rightarrow> (Inl e, ?H1)
      | Inr rows \<Rightarrow>
          py_band_loop pr rf ivt mid rest
            ((?H1 @ [Array2 rows, Array1 (sum_axis0 (ncols P) rows)])
               [ivt := RefList (refs @ [Suc (Suc (length H))]),
                mid := FloatList (ms @ [mean2 rr])]))"
    using Cons.prems
    by (simp add: np_in_range_def np_select_sum_def list_append_ref_def list_append_float_def
        then_do_assoc then_do_get_array1 then_do_get_array2 then_do_get_bools then_do_get_refs
        then_do_get_floats nth_append split: sum.splits)
  show ?case
  proof (cases "bool_index P ?m")
    case (Inl e)
    then show ?thesis
      using run1 by (simp add: nth_append)
  next
    case (Inr rows)
    let ?s = "sum_axis0 (ncols P) rows"
    let ?sr = "Suc (Suc (length H))"
    let ?H5 = "(?H1 @ [Array2 rows, Array1 ?s])
               [ivt := RefList (refs @ [?sr]), mid := FloatList (ms @ [mean2 rr])]"
    have lenH5: "length ?H5 = length H + 3" by simp
    have old: "?H5 ! a = H ! a" if "a < length H" "a \<noteq> ivt" "a \<noteq> mid" for a
      using that by (simp add: nth_append)
    have p1: "pr < length ?H5" "rf < length ?H5" "ivt < length ?H5" "mid < length ?H5"
      using Cons.prems by simp_all
    have p2: "?H5 ! pr = Array2 P" "?H5 ! rf = Array1 rv"
      using Cons.prems by (simp_all add: nth_append)
    have p3: "?H5 ! ivt = RefList (refs @ [?sr])" "?H5 ! mid = FloatList (ms @ [mean2 rr])"
      using Cons.prems by (simp_all add: nth_append)
    have sr: "?H5 ! ?sr = Array1 ?s"
      using Cons.prems by (simp add: nth_append)
    have p4: "refs_ok ?H5 ivt mid (refs @ [?sr])"
      using Cons.prems(5,7,14) sr old unfolding refs_ok_def
      by (auto simp del: list_update_overwrite nth_list_update)
    have rows: "rows_at ?H5 (refs @ [?sr]) = rows_at H refs @ [?s]"
      using Cons.prems(14) sr old unfolding refs_ok_def rows_at_def
      by (auto simp del: nth_list_update)
    from Cons.IH[OF p1(1) p2(1) p1(2) p2(2) p1(3) p3(1) p1(4) p3(2) Cons.prems(9-13) p4]
    obtain res H' where
      r: "py_band_loop pr rf ivt mid rest ?H5 = (res, H')"
      and l: "length ?H5 \<le> length H'"
      and f: "\<forall>a<length ?H5. a \<noteq> ivt \<longrightarrow> a \<noteq> mid \<longrightarrow> H' ! a = ?H5 ! a"
      and v: "(case band_loop P rv rest (rows_at ?H5 (refs @ [?sr])) (ms @ [mean2 rr]) of
              Inl e \<Rightarrow> res = Inl e
            | Inr (I, M) \<Rightarrow>
                res = Inr () \<and> ivt < length H' \<and> mid < length H' \<and>
                (\<exists>refs'. H' ! ivt = RefList refs' \<and> refs_ok H' ivt mid refs' \<and>
                          rows_at H' refs' = I) \<and>
                H' ! mid = FloatList M)"
      by blast
    have frame: "\<forall>a<length H. a \<noteq> ivt \<longrightarrow> a \<noteq> mid \<longrightarrow> H' ! a = H ! a"
    proof (intro allI impI)
      fix a assume a: "a < length H" "a \<noteq> ivt" "a \<noteq> mid"
      then have "a < length ?H5" by simp
      with f a have "H' ! a = ?H5 ! a" by blast
      with old[OF a] show "H' ! a = H ! a" by simp
    qed
    have len: "length H \<le> length H'" using l by simp
    show ?thesis
      using run1 Inr r len frame v[unfolded rows] by simp
  qed
qed

lemma radial_integration_heap_tail:
  assumes pr: "pr < length H" "H ! pr = Array2 P"
    and rf: "rf < length H" "H ! rf = Array1 rv"
    and tr: "tr < length H" "H ! tr = Array1 theta"
    and bl: "bl < length H" "H ! bl = TupleList bands"
  shows "\<exists>res H'.
           then_do (new_obj (RefList [])) (\<lambda>ivt.
           then_do (new_obj (FloatList [])) (\<lambda>mid.
           then_do (get_tuples bl) (\<lambda>bands.
           then_do (py_band_loop pr rf ivt mid bands) (\<lambda>u.
           then_do (np_array_of_list ivt) (\<lambda>out. give (out, tr, mid)))))) H = (res, H') \<and>
           take (length H) H' = H \<and>
           read_result H' res =
             Some (case band_loop P rv bands [] [] of
                     Inl e \<Rightarrow> Inl e
                   | Inr (I, M) \<Rightarrow> Inr (I, theta, M))"
proof -
  let ?ivt = "length H" and ?mid = "Suc (length H)"
  let ?H2 = "H @ [RefList [], FloatList []]"
  have q: "pr < length ?H2" "?H2 ! pr = Array2 P" "rf < length ?H2" "?H2 ! rf = Array1 rv"
    "?ivt < length ?H2" "?H2 ! ?ivt = RefList []" "?mid < length ?H2" "?H2 ! ?mid = FloatList []"
    "?ivt \<noteq> ?mid" "pr \<noteq> ?ivt" "pr \<noteq> ?mid" "rf \<noteq> ?ivt" "rf \<noteq> ?mid"
    "refs_ok ?H2 ?ivt ?mid []"
    using pr rf by (simp_all add: nth_append refs_ok_def)
  from py_band_loop_run[OF q, of bands]
  obtain res H' where
    run: "py_band_loop pr rf ?ivt ?mid bands ?H2 = (res, H')"
    and len: "length ?H2 \<le> length H'"
    and frame: "\<forall>a<length ?H2. a \<noteq> ?ivt \<longrightarrow> a \<noteq> ?mid \<longrightarrow> H' ! a = ?H2 ! a"
    and val: "(case band_loop P rv bands (rows_at ?H2 []) [] of
              Inl e \<Rightarrow> res = Inl e
            | Inr (I, M) \<Rightarrow>
                res = Inr () \<and> ?ivt < length H' \<and> ?mid < length H' \<and>
                (\<exists>refs'. H' ! ?ivt = RefList refs' \<and> refs_ok H' ?ivt ?mid refs' \<and>
                          rows_at H' refs' = I) \<and>
                H' ! ?mid = FloatList M)"
    by blast
  have keep: "H' ! a = H ! a" if "a < length H" for a
    using frame that by (simp add: nth_append)
  have takeH: "take (length H) H' = H"
    using len keep by (intro nth_equalityI) simp_all
  have start: "then_do (new_obj (RefList [])) (\<lambda>ivt.
           then_do (new_obj (FloatList [])) (\<lambda>mid.
           then_do (get_tuples bl) (\<lambda>bands.
           then_do (py_band_loop pr rf ivt mid bands) (\<lambda>u.
           then_do (np_array_of_list ivt) (\<lambda>out. give (out, tr, mid)))))) H =
        then_do (py_band_loop pr rf ?ivt ?mid bands) (\<lambda>u.
           then_do (np_array_of_list ?ivt) (\<lambda>out. give (out, tr, ?mid))) ?H2"
    using bl by (simp add: then_do_get_tuples nth_append)
  show ?thesis
  proof (cases "band_loop P rv bands [] []")
    case (Inl e)
    with val have "res = Inl e" by (simp add: rows_at_def)
    then show ?thesis
      using start run Inl takeH by (simp add: then_do_def read_result_def)
  next
    case (Inr IM')
    obtain I M where IM': "IM' = (I, M)" by (cases IM')
    with val Inr obtain refs' where
      res: "res = Inr ()" and b: "?ivt < length H'" "?mid < length H'"
      and r: "H' ! ?ivt = RefList refs'" "refs_ok H' ?ivt ?mid refs'" "rows_at H' refs' = I"
      and m: "H' ! ?mid = FloatList M"
      by (auto simp: rows_at_def)
    have rows_ok: "\<forall>a\<in>set refs'. a < length H' \<and> (\<exists>v. H' ! a = Array1 v)"
      using r(2) by (auto simp: refs_ok_def)
    let ?H3 = "H' @ [Array2 I]"
    have fin: "then_do (py_band_loop pr rf ?ivt ?mid bands) (\<lambda>u.
           then_do (np_array_of_list ?ivt) (\<lambda>out. give (out, tr, ?mid))) ?H2 =
           (Inr (length H', tr, ?mid), ?H3)"
      using run res b r(1) r(3)
      by (simp add: then_do_def[of "py_band_loop pr rf ?ivt ?mid bands"] np_array_of_list_def
          then_do_assoc then_do_get_refs then_do_get_rows[OF rows_ok] give_def)
    have t: "?H3 ! tr = Array1 theta"
      using tr keep[OF tr(1)] len by (simp add: nth_append)
    have "read_result ?H3 (Inr (length H', tr, ?mid)) = Some (Inr (I, theta, M))"
      using t m b tr(1) len by (simp add: read_result_def nth_append)
    moreover have "take (length H) ?H3 = H"
      using takeH len by simp
    ultimately show ?thesis
      using start fin Inr IM' by simp
  qed
qed

lemma radial_integration_heap_run:
  assumes im: "read_image h IM = Some im" and rr: "read_ranges h arg = Some rr"
  shows "\<exists>res h'. radial_integration_heap rp IM arg h = (res, h') \<and>
           take (length h) h' = h \<and>
           read_result h' res = Some (radial_integration rp im rr)"
proof -
  from im have IM: "IM < length h" "h ! IM = Array2 im"
    by (auto simp: read_image_def split: if_splits obj.splits)
  show ?thesis
  proof (cases "rp im None None None None")
    case (Inl e)
    then show ?thesis
      using IM by (simp add: radial_integration_heap_def py_reproject_def then_do_assoc
          then_do_get_array2 radial_integration_def read_result_def)
  next
    case g: (Inr g)
    let ?h1 = "h @ [Array2 (polarIM g), Array2 (R g), Array2 (T g)]"
    let ?p = "length h" and ?rg = "Suc (length h)" and ?tg = "Suc (Suc (length h))"
    have s1: "radial_integration_heap rp IM arg h =
      then_do (np_row0 ?tg) (\<lambda>theta.
      then_do (np_col0 ?rg) (\<lambda>r.
      then_do (case (case arg of ArgNone \<Rightarrow> ArgInt 1 | x \<Rightarrow> x) of
                ArgInt k \<Rightarrow> py_zip_slices r k
              | ArgList l \<Rightarrow> give l
              | ArgNone \<Rightarrow> raise_err TypeError) (\<lambda>radial_ranges'.
      then_do (new_obj (RefList [])) (\<lambda>ivt.
      then_do (new_obj (FloatList [])) (\<lambda>mid.
      then_do (get_tuples radial_ranges') (\<lambda>bands.
      then_do (py_band_loop ?p r ivt mid bands) (\<lambda>u.
      then_do (np_array_of_list ivt) (\<lambda>out. give (out, theta, mid))))))))) ?h1"
      using IM g by (simp add: radial_integration_heap_def py_reproject_def then_do_assoc
          then_do_get_array2)
    show ?thesis
    proof (cases "row0 (T g)")
      case (Inl e)
      then show ?thesis
        using g by (simp add: s1 np_row0_def then_do_assoc then_do_get_array2 nth_append
            radial_integration_def read_result_def)
    next
      case th: (Inr theta)
      let ?h2 = "?h1 @ [Array1 theta]"
      let ?tr = "Suc (Suc (Suc (length h)))"
      show ?thesis
      proof (cases "col0 (R g)")
        case (Inl e)
        then show ?thesis
          using g th by (simp add: s1 np_row0_def np_col0_def then_do_assoc then_do_get_array2
              nth_append radial_integration_def read_result_def)
      next
        case r: (Inr r)
        let ?h3 = "?h2 @ [Array1 r]"
        let ?rf = "Suc (Suc (Suc (Suc (length h))))"
        have s3: "radial_integration_heap rp IM arg h =
          then_do (case (case arg of ArgNone \<Rightarrow> ArgInt 1 | x \<Rightarrow> x) of
                ArgInt k \<Rightarrow> py_zip_slices ?rf k
              | ArgList l \<Rightarrow> give l
              | ArgNone \<Rightarrow> raise_err TypeError) (\<lambda>radial_ranges'.
          then_do (new_obj (RefList [])) (\<lambda>ivt.
          then_do (new_obj (FloatList [])) (\<lambda>mid.
          then_do (get_tuples radial_ranges') (\<lambda>bands.
          then_do (py_band_loop ?p ?rf ivt mid bands) (\<lambda>u.
          then_do (np_array_of_list ivt) (\<lambda>out. give (out, ?tr, mid))))))) ?h3"
          using th r by (simp add: s1 np_row0_def np_col0_def then_do_assoc then_do_get_array2
              nth_append cong: ranges_arg.case_cong)
        have target: "radial_integration rp im rr =
            (case band_loop (polarIM g) r (resolve_ranges r rr) [] [] of
               Inl e \<Rightarrow> Inl e | Inr (I, M) \<Rightarrow> Inr (I, theta, M))"
          using g th r by (simp add: radial_integration_def)
        obtain H bl where
          s4: "radial_integration_heap rp IM arg h =
            then_do (new_obj (RefList [])) (\<lambda>ivt.
            then_do (new_obj (FloatList [])) (\<lambda>mid.
            then_do (get_tuples bl) (\<lambda>bands.
            then_do (py_band_loop ?p ?rf ivt mid bands) (\<lambda>u.
            then_do (np_array_of_list ivt) (\<lambda>out. give (out, ?tr, mid)))))) H"
          and H: "take (length ?h3) H = ?h3" "bl < length H"
            "H ! bl = TupleList (resolve_ranges r rr)"
        proof (cases arg)
          case ArgNone
          with rr have rrv: "rr = RNone" by (simp add: read_ranges_def)
          show ?thesis
          proof (rule that[of "length ?h3" "?h3 @ [TupleList (resolve_ranges r rr)]"])
            show "radial_integration_heap rp IM arg h =
              then_do (new_obj (RefList [])) (\<lambda>ivt.
              then_do (new_obj (FloatList [])) (\<lambda>mid.
              then_do (get_tuples (length ?h3)) (\<lambda>bands.
              then_do (py_band_loop ?p ?rf ivt mid bands) (\<lambda>u.
              then_do (np_array_of_list ivt) (\<lambda>out. give (out, ?tr, mid))))))
                (?h3 @ [TupleList (resolve_ranges r rr)])"
              unfolding s3
              by (simp add: ArgNone rrv py_zip_slices_def then_do_assoc then_do_get_array1
                  nth_append resolve_ranges_def)
          qed (simp_all add: nth_append)
        next
          case (ArgInt k)
          with rr have rrv: "rr = RStep k" by (simp add: read_ranges_def)
          show ?thesis
          proof (rule that[of "length ?h3" "?h3 @ [TupleList (resolve_ranges r rr)]"])
            show "radial_integration_heap rp IM arg h =
              then_do (new_obj (RefList [])) (\<lambda>ivt.
              then_do (new_obj (FloatList [])) (\<lambda>mid.
              then_do (get_tuples (length ?h3)) (\<lambda>bands.
              then_do (py_band_loop ?p ?rf ivt mid bands) (\<lambda>u.
              then_do (np_array_of_list ivt) (\<lambda>out. give (out, ?tr, mid))))))
                (?h3 @ [TupleList (resolve_ranges r rr)])"
              unfolding s3
              by (simp add: ArgInt rrv py_zip_slices_def then_do_assoc then_do_get_array1
                  nth_append resolve_ranges_def)
          qed (simp_all add: nth_append)
        next
          case (ArgList l)
          with rr obtain bs where l: "l < length h" "h ! l = TupleList bs" "rr = RExplicit bs"
            by (auto simp: read_ranges_def split: if_splits obj.splits)
          show ?thesis
          proof (rule that[of l ?h3])
            show "radial_integration_heap rp IM arg h =
              then_do (new_obj (RefList [])) (\<lambda>ivt.
              then_do (new_obj (FloatList [])) (\<lambda>mid.
              then_do (get_tuples l) (\<lambda>bands.
              then_do (py_band_loop ?p ?rf ivt mid bands) (\<lambda>u.
              then_do (np_array_of_list ivt) (\<lambda>out. give (out, ?tr, mid)))))) ?h3"
              unfolding s3 by (simp add: ArgList)
          qed (use l in \<open>simp_all add: nth_append resolve_ranges_def\<close>)
        qed
        have lenH: "length ?h3 \<le> length H"
          using H(1) by (metis length_take min.cobounded1)
        have nthH: "H ! a = ?h3 ! a" if "a < length ?h3" for a
          using H(1) that by (metis nth_take)
        have pre: "?p < length H" "H ! ?p = Array2 (polarIM g)"
          "?rf < length H" "H ! ?rf = Array1 r" "?tr < length H" "H ! ?tr = Array1 theta"
          using lenH nthH[of ?p] nthH[of ?rf] nthH[of ?tr] by (simp_all add: nth_append)
        from radial_integration_heap_tail[OF pre H(2,3)]
        obtain res H' where
          t: "then_do (new_obj (RefList [])) (\<lambda>ivt.
            then_do (new_obj (FloatList [])) (\<lambda>mid.
            then_do (get_tuples bl) (\<lambda>bands.
            then_do (py_band_loop ?p ?rf ivt mid bands) (\<lambda>u.
            then_do (np_array_of_list ivt) (\<lambda>out. give (out, ?tr, mid)))))) H = (res, H')"
          and tk: "take (length H) H' = H"
          and rd: "read_result H' res =
             Some (case band_loop (polarIM g) r (resolve_ranges r rr) [] [] of
                     Inl e \<Rightarrow> Inl e
                   | Inr (I, M) \<Rightarrow> Inr (I, theta, M))"
          by blast
        have "take (length h) H' = h"
        proof -
          have "take (length h) H' = take (length h) (take (length H) H')"
            using lenH by (simp add: min_def)
          also have "\<dots> = take (length h) (take (length ?h3) H)"
            using tk lenH by (simp add: min_def)
          also have "\<dots> = h" using H(1) by simp
          finally show ?thesis .
        qed
        then show ?thesis
          using s4 t rd target by simp
      qed
    qed
  qed
qed

lemma read_image_extend:
  "read_image h a = Some im \<Longrightarrow> take (length h) h' = h \<Longrightarrow> read_image h' a = Some im"
proof -
  assume r: "read_image h a = Some im" and t: "take (length h) h' = h"
  from r have a: "a < length h" by (simp add: read_image_def split: if_splits)
  from t have "length h \<le> length h'" by (metis length_take min.cobounded1)
  moreover from t a have "h' ! a = h ! a" by (metis nth_take)
  ultimately show ?thesis using r a by (simp add: read_image_def)
qed

lemma read_ranges_extend:
  "read_ranges h arg = Some rr \<Longrightarrow> take (length h) h' = h \<Longrightarrow> read_ranges h' arg = Some rr"
proof (cases arg)
  case (ArgList l)
  assume r: "read_ranges h arg = Some rr" and t: "take (length h) h' = h"
  from r ArgList have l: "l < length h" by (simp add: read_ranges_def split: if_splits)
  from t have "length h \<le> length h'" by (metis length_take min.cobounded1)
  moreover from t l have "h' ! l = h ! l" by (metis nth_take)
  ultimately show ?thesis using r l ArgList by (simp add: read_ranges_def)
qed (simp_all add: read_ranges_def)

text \<open>
  Claim C9: a call of \<open>radial_integration\<close> on the caller's image and band list
  changes no object that existed before the call (the store it leaves starts with the
  store it was given, so the image and the band list are as they were); the value it
  returns is the one the functional reading of the body gives for the image and the
  bands, so it depends on nothing else in the store; and a second call, in the store the
  first one left, again changes nothing and returns the same value.
\<close>

theorem radial_integration_heap_pure:
  assumes im: "read_image h IM = Some im" and rr: "read_ranges h radial_ranges = Some rr"
  shows "(case radial_integration_heap rp IM radial_ranges h of
            (res, h') \<Rightarrow>
              take (length h) h' = h \<and>
              read_result h' res = Some (radial_integration rp im rr) \<and>
              (case radial_integration_heap rp IM radial_ranges h' of
                 (res2, h'') \<Rightarrow>
                   take (length h') h'' = h' \<and>
                   read_result h'' res2 = read_result h' res))"
proof -
  from radial_integration_heap_run[OF im rr, of rp]
  obtain res h' where
    r1: "radial_integration_heap rp IM radial_ranges h = (res, h')"
    and t1: "take (length h) h' = h"
    and v1: "read_result h' res = Some (radial_integration rp im rr)"
    by blast
  from radial_integration_heap_run[OF read_image_extend[OF im t1] read_ranges_extend[OF rr t1], of rp]
  obtain res2 h'' where
    r2: "radial_integration_heap rp IM radial_ranges h' = (res2, h'')"
    and t2: "take (length h') h'' = h'"
    and v2: "read_result h'' res2 = Some (radial_integration rp im rr)"
    by blast
  show ?thesis
    by (simp add: r1 t1 v1 r2 t2 v2)
qed

theorem radial_integration_heap_pure_witness:
  "read_image [Array2 [[1, 0], [0, 1], [2, 0]], TupleList [(0, 1)]] 0 =
     Some [[1, 0], [0, 1], [2, 0]] \<and>
   read_ranges [Array2 [[1, 0], [0, 1], [2, 0]], TupleList [(0, 1)]] (ArgList 1) =
     Some (RExplicit [(0, 1)]) \<and>
   radial_integration_heap
     (demo_resampler [[0, 0], [1, 1], [2, 2]] [[0, 1], [0, 1], [0, 1]]) 0 (ArgList 1)
     [Array2 [[1, 0], [0, 1], [2, 0]], TupleList [(0, 1)]] =
     (Inr (12, 5, 8),
      [Array2 [[1, 0], [0, 1], [2, 0]], TupleList [(0, 1)],
       Array2 [[1, 0], [0, 1], [2, 0]], Array2 [[0, 0], [1, 1], [2, 2]],
       Array2 [[0, 1], [0, 1], [0, 1]], Array1 [0, 1], Array1 [0, 1, 2],
       RefList [11], FloatList [1 / 2], BoolArray [True, True, False],
       Array2 [[1, 0], [0, 1]], Array1 [1, 1], Array2 [[1, 1]]])"
proof -
  let ?h = "[Array2 [[1, 0], [0, 1], [2, 0]], TupleList [(0, 1)]]"
  have h1: "read_image ?h 0 = Some [[1, 0], [0, 1], [2, 0]]"
    by (simp add: read_image_def)
  have h2: "read_ranges ?h (ArgList 1) = Some (RExplicit [(0, 1)])"
    by (simp add: read_ranges_def)
  have run: "radial_integration_heap
     (demo_resampler [[0, 0], [1, 1], [2, 2]] [[0, 1], [0, 1], [0, 1]]) 0 (ArgList 1) ?h =
     (Inr (12, 5, 8),
      [Array2 [[1, 0], [0, 1], [2, 0]], TupleList [(0, 1)],
       Array2 [[1, 0], [0, 1], [2, 0]], Array2 [[0, 0], [1, 1], [2, 2]],
       Array2 [[0, 1], [0, 1], [0, 1]], Array1 [0, 1], Array1 [0, 1, 2],
       RefList [11], FloatList [1 / 2], BoolArray [True, True, False],
       Array2 [[1, 0], [0, 1]], Array1 [1, 1], Array2 [[1, 1]]])"
    using radial_integration_heap_pure[OF h1 h2, of "demo_resampler [[0, 0], [1, 1], [2, 2]] [[0, 1], [0, 1], [0, 1]]"]
    by (simp add: radial_integration_heap_def then_do_def py_reproject_def get_array2_def
        get_obj_def give_def raise_err_def new_obj_def demo_resampler_def np_row0_def np_col0_def
        row0_def col0_def get_tuples_def np_in_range_def get_array1_def in_range_mask_def
        np_select_sum_def get_bools_def bool_index_def sum_axis0_def ncols_def
        list_append_ref_def list_append_float_def get_refs_def get_floats_def put_obj_def
        np_array_of_list_def mean2_def)
  show ?thesis using h1 h2 run by simp
qed

section \<open>Claims about \<open>anisotropy_parameter\<close>\<close>

lemma select_theta_Some:
  assumes len: "length intensity = length theta"
  shows "select_theta theta intensity (Some ranges) =
           Inr (map fst (filter (\<lambda>(t, y). \<forall>rt\<in>set ranges. fst rt \<le> t \<and> t \<le> snd rt)
                           (zip theta intensity)),
                map snd (filter (\<lambda>(t, y). \<forall>rt\<in>set ranges. fst rt \<le> t \<and> t \<le> snd rt)
                           (zip theta intensity)))"
  by (simp add: select_theta_def subtheta_ones bool_index_map bool_index_map2[OF len]
      filter_zip_fst[OF len])

text \<open>
  Claim C6: for an angular profile (\<open>theta\<close> and \<open>intensity\<close> of one length) and a
  list of angular sub-ranges, the data handed to the fit are exactly the
  (theta, intensity) points whose theta satisfies the lower and the upper bound of every
  range, in their order.
\<close>

theorem anisotropy_parameter_range_intersection:
  assumes len: "length intensity = length theta"
  shows "select_theta theta intensity (Some ranges) =
           Inr (map fst (filter (\<lambda>(t, y). \<forall>rt\<in>set ranges. fst rt \<le> t \<and> t \<le> snd rt)
                           (zip theta intensity)),
                map snd (filter (\<lambda>(t, y). \<forall>rt\<in>set ranges. fst rt \<le> t \<and> t \<le> snd rt)
                           (zip theta intensity))) \<and>
         anisotropy_parameter solve theta intensity (Some ranges) =
           fit_PAD solve
             (map fst (filter (\<lambda>(t, y). \<forall>rt\<in>set ranges. fst rt \<le> t \<and> t \<le> snd rt)
                         (zip theta intensity)))
             (map snd (filter (\<lambda>(t, y). \<forall>rt\<in>set ranges. fst rt \<le> t \<and> t \<le> snd rt)
                         (zip theta intensity)))"
  by (simp add: anisotropy_parameter_def select_theta_Some[OF len])

theorem anisotropy_parameter_range_intersection_witness:
  "length [10, 20, 30, 40 :: real] = length [0, 1, 2, 3 :: real] \<and>
   select_theta [0, 1, 2, 3] [10, 20, 30, 40] (Some [(0, 2), (1, 3)]) = Inr ([1, 2], [20, 30]) \<and>
   anisotropy_parameter demo_solver [0, 1, 2, 3] [10, 20, 30, 40] (Some [(0, 2), (1, 3)]) =
     fit_PAD demo_solver [1, 2] [20, 30]"
proof -
  have h: "length [10, 20, 30, 40 :: real] = length [0, 1, 2, 3 :: real]" by simp
  show ?thesis
    using h anisotropy_parameter_range_intersection[OF h, of "[(0, 2), (1, 3)]" demo_solver]
    by simp
qed

end
